theory Spec2Isabelle
  imports Complex_Main "HOL-Library.Sublist"
begin

section \<open>JavaScript values\<close>

text \<open>
  A JavaScript string is the list of its UTF-16 code units, each an integer. String literals
  of the sources are written with \<open>str\<close>.
\<close>

type_synonym jsstring = "int list"

definition str :: "string \<Rightarrow> jsstring" where
  "str s = map of_char s"

text \<open>
  A JavaScript \<^verbatim>\<open>number\<close> is an IEEE 754 binary64 value: a finite double, given by the real
  number it denotes, an infinity or NaN. The two zeros are one value; no operation of the
  sources tells them apart. Arithmetic rounds the exact result to the nearest double, ties to
  the double with an even significand (\<open>toDouble\<close>), and overflows to an infinity. A decimal
  literal or a number read from JSON is the double nearest to it, \<open>toDouble\<close> of its value.
\<close>

datatype number = Finite real | PosInfinity | NegInfinity | NaN

text \<open>The number of binary digits of a positive integer.\<close>

function bitLength :: "int \<Rightarrow> int" where
  "bitLength n = (if n \<le> 0 then 0 else 1 + bitLength (n div 2))"
  by pat_completeness auto
termination
  by (relation "measure nat") auto

declare bitLength.simps [simp del]

text \<open>For \<open>x > 0\<close>, the integer \<open>e\<close> with \<open>2\<^sup>e \<le> x < 2\<^sup>e\<^sup>+\<^sup>1\<close>.\<close>

definition exponent_of :: "real \<Rightarrow> int" where
  "exponent_of x =
     (if 1 \<le> x then bitLength \<lfloor>x\<rfloor> - 1 else - bitLength (\<lceil>1 / x\<rceil> - 1))"

definition pow2 :: "int \<Rightarrow> real" where
  "pow2 e = (if 0 \<le> e then 2 ^ nat e else 1 / 2 ^ nat (- e))"

definition roundHalfEven :: "real \<Rightarrow> int" where
  "roundHalfEven q =
     (let f = \<lfloor>q\<rfloor>; d = q - of_int f
      in if d < 1 / 2 then f else if 1 / 2 < d then f + 1 else if even f then f else f + 1)"

text \<open>
  Rounding to binary64: 53 significant bits, least exponent \<open>-1022\<close> (below it the spacing of
  the subnormal numbers stays \<open>2\<^sup>-\<^sup>1\<^sup>0\<^sup>7\<^sup>4\<close>), overflow from \<open>2\<^sup>1\<^sup>0\<^sup>2\<^sup>4\<close> on.
\<close>

definition toDouble :: "real \<Rightarrow> number" where
  "toDouble x =
     (if x = 0 then Finite 0
      else
        (let e = max (exponent_of \<bar>x\<bar>) (- 1022);
             u = pow2 (e - 52);
             n = roundHalfEven (x / u)
         in if 1024 \<le> e \<or> (e = 1023 \<and> 9007199254740992 \<le> \<bar>n\<bar>) then
              (if 0 < x then PosInfinity else NegInfinity)
            else Finite (of_int n * u)))"

fun num_neg :: "number \<Rightarrow> number" where
  "num_neg (Finite x) = Finite (- x)"
| "num_neg PosInfinity = NegInfinity"
| "num_neg NegInfinity = PosInfinity"
| "num_neg NaN = NaN"

text \<open>\<^verbatim>\<open>Math.abs\<close>.\<close>

fun num_abs :: "number \<Rightarrow> number" where
  "num_abs (Finite x) = Finite \<bar>x\<bar>"
| "num_abs PosInfinity = PosInfinity"
| "num_abs NegInfinity = PosInfinity"
| "num_abs NaN = NaN"

text \<open>The operators \<^verbatim>\<open>+\<close> and \<^verbatim>\<open>-\<close> on numbers.\<close>

fun num_add :: "number \<Rightarrow> number \<Rightarrow> number" where
  "num_add NaN b = NaN"
| "num_add a NaN = NaN"
| "num_add (Finite x) (Finite y) = toDouble (x + y)"
| "num_add PosInfinity NegInfinity = NaN"
| "num_add NegInfinity PosInfinity = NaN"
| "num_add PosInfinity b = PosInfinity"
| "num_add NegInfinity b = NegInfinity"
| "num_add a PosInfinity = PosInfinity"
| "num_add a NegInfinity = NegInfinity"

definition num_sub :: "number \<Rightarrow> number \<Rightarrow> number" where
  "num_sub a b = num_add a (num_neg b)"

text \<open>The comparisons \<^verbatim>\<open><\<close>, \<^verbatim>\<open><=\<close> and \<^verbatim>\<open>>=\<close>; each is false when an operand is NaN.\<close>

fun num_lt :: "number \<Rightarrow> number \<Rightarrow> bool" where
  "num_lt NaN b = False"
| "num_lt a NaN = False"
| "num_lt (Finite x) (Finite y) = (x < y)"
| "num_lt PosInfinity b = False"
| "num_lt a NegInfinity = False"
| "num_lt NegInfinity b = True"
| "num_lt a PosInfinity = True"

fun num_le :: "number \<Rightarrow> number \<Rightarrow> bool" where
  "num_le NaN b = False"
| "num_le a NaN = False"
| "num_le (Finite x) (Finite y) = (x \<le> y)"
| "num_le NegInfinity b = True"
| "num_le a PosInfinity = True"
| "num_le PosInfinity b = False"
| "num_le a NegInfinity = False"

definition num_ge :: "number \<Rightarrow> number \<Rightarrow> bool" where
  "num_ge a b = num_le b a"

section \<open>Data model (src/lib/data.ts)\<close>

text \<open>
  The records follow the TypeScript interfaces of \<^verbatim>\<open>src/lib/data.ts\<close>. Field names that
  occur in several interfaces carry the interface as a suffix. An optional field is an
  \<^typ>\<open>'a option\<close>. The JSON files of the data directory are the fields of the record
  \<open>Store\<close>; reading and writing a file cannot fail in the model, and the stored values have
  the declared types.
\<close>

datatype MatchMode = SearchTerms | ExactAmounts

record Tenant =
  id_Tenant :: jsstring
  name_Tenant :: jsstring
  property :: jsstring
  expectedRent :: number
  tolerance :: number
  searchTerms :: "jsstring list"
  accountId_Tenant :: jsstring
  matchMode :: "MatchMode option"
  exactAmounts :: "number list option"

record TenantTransaction =
  id_TT :: jsstring
  tenantId_TT :: jsstring
  transactionId_TT :: jsstring
  manualOverride :: bool

record RejectedMatch =
  tenantId_RM :: jsstring
  transactionId_RM :: jsstring

record Transaction =
  transactionId :: jsstring
  accountId :: jsstring
  itemId :: jsstring
  amount :: number
  date :: jsstring
  name :: jsstring
  merchantName :: "jsstring option"
  category :: "jsstring list option"
  pending :: bool

record CsvUpload =
  id_Csv :: jsstring
  accountId_Csv :: jsstring
  filename :: jsstring
  uploadedAt :: jsstring
  dateRangeStart :: jsstring
  dateRangeEnd :: jsstring
  transactionCount :: nat
  transactionIds :: "jsstring list"

record Store =
  tenants :: "Tenant list"
  transactions :: "Transaction list"
  tenantTransactions :: "TenantTransaction list"
  rejectedMatches :: "RejectedMatch list"
  csvUploads :: "CsvUpload list"

text \<open>Every file is read with the default \<^verbatim>\<open>[]\<close> while it does not exist.\<close>

definition emptyStore :: Store where
  "emptyStore = \<lparr>tenants = [], transactions = [], tenantTransactions = [],
     rejectedMatches = [], csvUploads = []\<rparr>"

section \<open>String operations of the matcher\<close>

text \<open>
  \<^verbatim>\<open>String.prototype.toUpperCase\<close> follows the case mappings of the Unicode standard, a
  table of the JavaScript engine and not of these sources. Every definition that upper-cases
  takes the function as its first argument, named \<open>toUpperCase\<close>, and every theorem holds for
  whatever function it is. The examples instantiate it with \<open>toUpperCase_ASCII\<close>, which agrees
  with the engine on strings of ASCII code units; all strings of the examples are such.
\<close>

definition toUpperCase_ASCII :: "jsstring \<Rightarrow> jsstring" where
  "toUpperCase_ASCII s = map (\<lambda>c. if 97 \<le> c \<and> c \<le> 122 then c - 32 else c) s"

text \<open>
  The code units that \<^verbatim>\<open>String.prototype.trim\<close> removes: the white space and the line
  terminators of ECMAScript.
\<close>

definition isWhiteSpace :: "int \<Rightarrow> bool" where
  "isWhiteSpace c =
     (c \<in> {9, 10, 11, 12, 13, 32, 160, 5760, 8232, 8233, 8239, 8287, 12288, 65279} \<or>
      (8192 \<le> c \<and> c \<le> 8202))"

definition trim :: "jsstring \<Rightarrow> jsstring" where
  "trim s = rev (dropWhile isWhiteSpace (rev (dropWhile isWhiteSpace s)))"

text \<open>\<^verbatim>\<open>s.includes(sub)\<close>: \<open>sub\<close> occurs in \<open>s\<close> as a contiguous run.\<close>

fun includes_str :: "jsstring \<Rightarrow> jsstring \<Rightarrow> bool" where
  "includes_str [] sub = (sub = [])"
| "includes_str (c # cs) sub = (prefix sub (c # cs) \<or> includes_str cs sub)"

text \<open>The template \<^verbatim>\<open>`${t.name} ${t.merchantName || ''}`.toUpperCase()\<close>.\<close>

definition description_of :: "(jsstring \<Rightarrow> jsstring) \<Rightarrow> Transaction \<Rightarrow> jsstring" where
  "description_of toUpperCase t =
     toUpperCase (name t @ str '' '' @ (case merchantName t of None \<Rightarrow> [] | Some m \<Rightarrow> m))"

section \<open>Store operations (src/lib/data.ts)\<close>

fun findIndex :: "('a \<Rightarrow> bool) \<Rightarrow> 'a list \<Rightarrow> nat option" where
  "findIndex p [] = None"
| "findIndex p (x # xs) =
     (if p x then Some 0 else (case findIndex p xs of None \<Rightarrow> None | Some i \<Rightarrow> Some (Suc i)))"

definition getTenants :: "Store \<Rightarrow> Tenant list" where
  "getTenants s = tenants s"

definition saveTenant :: "Store \<Rightarrow> Tenant \<Rightarrow> Store" where
  "saveTenant s tenant =
     (case findIndex (\<lambda>t. id_Tenant t = id_Tenant tenant) (getTenants s) of
        Some existingIndex \<Rightarrow> s\<lparr>tenants := (getTenants s)[existingIndex := tenant]\<rparr>
      | None \<Rightarrow> s\<lparr>tenants := getTenants s @ [tenant]\<rparr>)"

definition deleteTenant :: "Store \<Rightarrow> jsstring \<Rightarrow> Store" where
  "deleteTenant s i = s\<lparr>tenants := filter (\<lambda>t. id_Tenant t \<noteq> i) (getTenants s)\<rparr>"

definition getTransactions :: "Store \<Rightarrow> Transaction list" where
  "getTransactions s = transactions s"

definition saveTransactions :: "Store \<Rightarrow> Transaction list \<Rightarrow> Store" where
  "saveTransactions s txs =
     (let existing = getTransactions s;
          existingIds = set (map transactionId existing);
          newTransactions = filter (\<lambda>t. transactionId t \<notin> existingIds) txs
      in s\<lparr>transactions := existing @ newTransactions\<rparr>)"

definition updateTransactions :: "Store \<Rightarrow> Transaction list \<Rightarrow> Store" where
  "updateTransactions s txs =
     (let existing = getTransactions s;
          updateMap = map_of (rev (map (\<lambda>t. (transactionId t, t)) txs))
      in s\<lparr>transactions :=
            map (\<lambda>t. case updateMap (transactionId t) of Some u \<Rightarrow> u | None \<Rightarrow> t) existing\<rparr>)"

definition removeTransactions :: "Store \<Rightarrow> jsstring list \<Rightarrow> Store" where
  "removeTransactions s ids =
     s\<lparr>transactions := filter (\<lambda>t. transactionId t \<notin> set ids) (getTransactions s)\<rparr>"

definition getTenantTransactions :: "Store \<Rightarrow> TenantTransaction list" where
  "getTenantTransactions s = tenantTransactions s"

definition getTenantTransactionByTransactionId :: "Store \<Rightarrow> jsstring \<Rightarrow> TenantTransaction option" where
  "getTenantTransactionByTransactionId s x =
     find (\<lambda>tt. transactionId_TT tt = x) (getTenantTransactions s)"

definition addTenantTransaction :: "Store \<Rightarrow> jsstring \<Rightarrow> jsstring \<Rightarrow> bool \<Rightarrow> Store" where
  "addTenantTransaction s tid x manual =
     (let existing = getTenantTransactions s
      in case find (\<lambda>tt. transactionId_TT tt = x) existing of
           Some alreadyAssigned \<Rightarrow> s
         | None \<Rightarrow>
             s\<lparr>tenantTransactions := existing @
                 [\<lparr>id_TT = tid @ str ''-'' @ x, tenantId_TT = tid, transactionId_TT = x,
                   manualOverride = manual\<rparr>]\<rparr>)"

definition removeTenantTransaction :: "Store \<Rightarrow> jsstring \<Rightarrow> Store" where
  "removeTenantTransaction s x =
     s\<lparr>tenantTransactions := filter (\<lambda>tt. transactionId_TT tt \<noteq> x) (getTenantTransactions s)\<rparr>"

definition removeTenantTransactionsForTenant :: "Store \<Rightarrow> jsstring \<Rightarrow> Store" where
  "removeTenantTransactionsForTenant s tid =
     s\<lparr>tenantTransactions := filter (\<lambda>tt. tenantId_TT tt \<noteq> tid) (getTenantTransactions s)\<rparr>"

definition getRejectedMatches :: "Store \<Rightarrow> RejectedMatch list" where
  "getRejectedMatches s = rejectedMatches s"

definition addRejectedMatch :: "Store \<Rightarrow> jsstring \<Rightarrow> jsstring \<Rightarrow> Store" where
  "addRejectedMatch s tid x =
     (let existing = getRejectedMatches s
      in case find (\<lambda>rm. tenantId_RM rm = tid \<and> transactionId_RM rm = x) existing of
           Some alreadyRejected \<Rightarrow> s
         | None \<Rightarrow>
             s\<lparr>rejectedMatches := existing @ [\<lparr>tenantId_RM = tid, transactionId_RM = x\<rparr>]\<rparr>)"

definition isMatchRejected :: "Store \<Rightarrow> jsstring \<Rightarrow> jsstring \<Rightarrow> bool" where
  "isMatchRejected s tid x =
     list_ex (\<lambda>rm. tenantId_RM rm = tid \<and> transactionId_RM rm = x) (getRejectedMatches s)"

definition removeRejectedMatch :: "Store \<Rightarrow> jsstring \<Rightarrow> jsstring \<Rightarrow> Store" where
  "removeRejectedMatch s tid x =
     s\<lparr>rejectedMatches :=
         filter (\<lambda>rm. \<not> (tenantId_RM rm = tid \<and> transactionId_RM rm = x)) (getRejectedMatches s)\<rparr>"

definition removeRejectedMatchesForTenant :: "Store \<Rightarrow> jsstring \<Rightarrow> Store" where
  "removeRejectedMatchesForTenant s tid =
     s\<lparr>rejectedMatches := filter (\<lambda>rm. tenantId_RM rm \<noteq> tid) (getRejectedMatches s)\<rparr>"

definition getCsvUploads :: "Store \<Rightarrow> CsvUpload list" where
  "getCsvUploads s = csvUploads s"

definition saveCsvUpload :: "Store \<Rightarrow> CsvUpload \<Rightarrow> Store" where
  "saveCsvUpload s upload =
     (case findIndex (\<lambda>u. id_Csv u = id_Csv upload) (getCsvUploads s) of
        Some existingIndex \<Rightarrow> s\<lparr>csvUploads := (getCsvUploads s)[existingIndex := upload]\<rparr>
      | None \<Rightarrow> s\<lparr>csvUploads := getCsvUploads s @ [upload]\<rparr>)"

definition deleteCsvUpload :: "Store \<Rightarrow> jsstring \<Rightarrow> Store \<times> CsvUpload option" where
  "deleteCsvUpload s uploadId =
     (case find (\<lambda>u. id_Csv u = uploadId) (getCsvUploads s) of
        None \<Rightarrow> (s, None)
      | Some upload \<Rightarrow>
          (s\<lparr>csvUploads := filter (\<lambda>u. id_Csv u \<noteq> uploadId) (getCsvUploads s)\<rparr>, Some upload))"

definition deleteCsvUploadsForAccount :: "Store \<Rightarrow> jsstring \<Rightarrow> Store" where
  "deleteCsvUploadsForAccount s a =
     s\<lparr>csvUploads := filter (\<lambda>u. accountId_Csv u \<noteq> a) (getCsvUploads s)\<rparr>"

section \<open>Re-evaluation of a tenant's automatic links (reEvaluateTenantMatches)\<close>

text \<open>The value of \<^verbatim>\<open>stillMatches\<close> at the end of one iteration of the loop body.\<close>

definition stillMatches :: "(jsstring \<Rightarrow> jsstring) \<Rightarrow> Tenant \<Rightarrow> Transaction \<Rightarrow> bool" where
  "stillMatches toUpperCase tenant transaction =
     (let mode = (case matchMode tenant of None \<Rightarrow> SearchTerms | Some m \<Rightarrow> m);
          depositAmount = num_abs (amount transaction)
      in if mode = ExactAmounts then
           list_ex (\<lambda>a. num_lt (num_abs (num_sub depositAmount a)) (toDouble (1 / 100)))
             (case exactAmounts tenant of None \<Rightarrow> [] | Some xs \<Rightarrow> xs)
         else
           (let description = description_of toUpperCase transaction;
                minAmount = num_sub (expectedRent tenant) (tolerance tenant);
                maxAmount = num_add (expectedRent tenant) (tolerance tenant)
            in if num_ge depositAmount minAmount \<and> num_le depositAmount maxAmount then
                 list_ex (\<lambda>term. trim term \<noteq> [] \<and> includes_str description (toUpperCase term))
                   (searchTerms tenant)
               else False))"

text \<open>The loop over \<^verbatim>\<open>autoMatched\<close>, with \<^verbatim>\<open>transactionsToRemove\<close> as the accumulator.\<close>

fun collectToRemove ::
  "(jsstring \<Rightarrow> jsstring) \<Rightarrow> Transaction list \<Rightarrow> Tenant \<Rightarrow> TenantTransaction list \<Rightarrow>
   jsstring list \<Rightarrow> jsstring list" where
  "collectToRemove toUpperCase allTransactions tenant [] transactionsToRemove =
     transactionsToRemove"
| "collectToRemove toUpperCase allTransactions tenant (tt # rest) transactionsToRemove =
     (case find (\<lambda>t. transactionId t = transactionId_TT tt) allTransactions of
        None \<Rightarrow>
          collectToRemove toUpperCase allTransactions tenant rest
            (transactionsToRemove @ [transactionId_TT tt])
      | Some transaction \<Rightarrow>
          if \<not> stillMatches toUpperCase tenant transaction then
            collectToRemove toUpperCase allTransactions tenant rest
              (transactionsToRemove @ [transactionId_TT tt])
          else collectToRemove toUpperCase allTransactions tenant rest transactionsToRemove)"

definition reEvaluateTenantMatches ::
  "(jsstring \<Rightarrow> jsstring) \<Rightarrow> Store \<Rightarrow> Tenant \<Rightarrow> Store \<times> nat" where
  "reEvaluateTenantMatches toUpperCase s tenant =
     (let tts = getTenantTransactions s;
          allTransactions = getTransactions s;
          autoMatched = filter (\<lambda>tt. tenantId_TT tt = id_Tenant tenant \<and> \<not> manualOverride tt) tts;
          transactionsToRemove = collectToRemove toUpperCase allTransactions tenant autoMatched []
      in (if length transactionsToRemove > 0 then
            s\<lparr>tenantTransactions := filter (\<lambda>tt. transactionId_TT tt \<notin> set transactionsToRemove) tts\<rparr>
          else s,
          length transactionsToRemove))"

section \<open>The auto-match route (src/app/api/data/match/route.ts, POST)\<close>

text \<open>The value of \<^verbatim>\<open>isMatch\<close> when the \<^verbatim>\<open>if (isMatch)\<close> test is reached.\<close>

definition isMatch :: "(jsstring \<Rightarrow> jsstring) \<Rightarrow> Tenant \<Rightarrow> Transaction \<Rightarrow> jsstring \<Rightarrow> bool" where
  "isMatch toUpperCase tenant deposit description =
     (let depositAmount = num_abs (amount deposit);
          mode = (case matchMode tenant of None \<Rightarrow> SearchTerms | Some m \<Rightarrow> m)
      in if mode = ExactAmounts then
           list_ex (\<lambda>a. num_lt (num_abs (num_sub depositAmount a)) (toDouble (1 / 100)))
             (case exactAmounts tenant of None \<Rightarrow> [] | Some xs \<Rightarrow> xs)
         else
           (let minAmount = num_sub (expectedRent tenant) (tolerance tenant);
                maxAmount = num_add (expectedRent tenant) (tolerance tenant)
            in if num_ge depositAmount minAmount \<and> num_le depositAmount maxAmount then
                 list_ex (\<lambda>term. trim term \<noteq> [] \<and> includes_str description (toUpperCase term))
                   (searchTerms tenant)
               else False))"

text \<open>
  The inner loop over the tenants for one deposit. The loop state is the store, the set
  \<^verbatim>\<open>assignedIds\<close> and \<^verbatim>\<open>matchedCount\<close>; \<^verbatim>\<open>break\<close> ends the recursion.
\<close>

fun matchTenants ::
  "(jsstring \<Rightarrow> jsstring) \<Rightarrow> Transaction \<Rightarrow> jsstring \<Rightarrow> Tenant list \<Rightarrow>
   Store \<times> jsstring set \<times> nat \<Rightarrow> Store \<times> jsstring set \<times> nat" where
  "matchTenants toUpperCase deposit description [] st = st"
| "matchTenants toUpperCase deposit description (tenant # rest) (s, assignedIds, matchedCount) =
     (if isMatchRejected s (id_Tenant tenant) (transactionId deposit) then
        matchTenants toUpperCase deposit description rest (s, assignedIds, matchedCount)
      else if isMatch toUpperCase tenant deposit description then
        (addTenantTransaction s (id_Tenant tenant) (transactionId deposit) False,
         insert (transactionId deposit) assignedIds,
         matchedCount + 1)
      else matchTenants toUpperCase deposit description rest (s, assignedIds, matchedCount))"

text \<open>The outer loop over the deposits.\<close>

fun matchDeposits ::
  "(jsstring \<Rightarrow> jsstring) \<Rightarrow> Tenant list \<Rightarrow> Transaction list \<Rightarrow>
   Store \<times> jsstring set \<times> nat \<Rightarrow> Store \<times> jsstring set \<times> nat" where
  "matchDeposits toUpperCase ts [] st = st"
| "matchDeposits toUpperCase ts (deposit # rest) (s, assignedIds, matchedCount) =
     (if transactionId deposit \<in> assignedIds then
        matchDeposits toUpperCase ts rest (s, assignedIds, matchedCount)
      else
        matchDeposits toUpperCase ts rest
          (matchTenants toUpperCase deposit (description_of toUpperCase deposit) ts
             (s, assignedIds, matchedCount)))"

text \<open>The route: the new store and the \<^verbatim>\<open>matched\<close> field of the response.\<close>

definition match_POST :: "(jsstring \<Rightarrow> jsstring) \<Rightarrow> Store \<Rightarrow> Store \<times> nat" where
  "match_POST toUpperCase s =
     (let ts = getTenants s;
          allTransactions = getTransactions s;
          existingAssignments = getTenantTransactions s;
          deposits = filter (\<lambda>t. num_lt (amount t) (Finite 0)) allTransactions;
          assignedIds = set (map transactionId_TT existingAssignments)
      in case matchDeposits toUpperCase ts deposits (s, assignedIds, 0) of
           (s', assignedIds', matchedCount) \<Rightarrow> (s', matchedCount))"

section \<open>The manual assignment routes (src/app/api/data/tenant-transactions/route.ts)\<close>

text \<open>
  A handler that answers with an error status leaves the store as it found it; the status is
  the \<open>Inl\<close> value. An identifier of the request body that is missing or empty is falsy in
  JavaScript: the model passes the empty string for it.
\<close>

datatype error = BadRequest | NotFound

definition tenantTransactions_POST :: "Store \<Rightarrow> jsstring \<Rightarrow> jsstring \<Rightarrow> error + Store" where
  "tenantTransactions_POST s tid x =
     (if tid = [] \<or> x = [] then Inl BadRequest
      else Inr (addTenantTransaction (removeRejectedMatch s tid x) tid x True))"

definition tenantTransactions_DELETE :: "Store \<Rightarrow> jsstring \<Rightarrow> error + Store" where
  "tenantTransactions_DELETE s x =
     (if x = [] then Inl BadRequest
      else
        (let assignment = getTenantTransactionByTransactionId s x;
             s1 = (case assignment of
                     Some a \<Rightarrow> addRejectedMatch s (tenantId_TT a) x
                   | None \<Rightarrow> s)
         in Inr (removeTenantTransaction s1 x)))"

section \<open>The tenant routes (the tenants route of src/unnamed/part_004)\<close>

text \<open>
  \<open>fresh\<close> stands for the identifier \<^verbatim>\<open>`tenant-${Date.now()}`\<close> that the handler gives a
  tenant posted without one. The result is the store, the tenant of the response and
  \<^verbatim>\<open>removedCount\<close>.
\<close>

definition tenants_POST ::
  "(jsstring \<Rightarrow> jsstring) \<Rightarrow> jsstring \<Rightarrow> Store \<Rightarrow> Tenant \<Rightarrow> Store \<times> Tenant \<times> nat" where
  "tenants_POST toUpperCase fresh s tenant =
     (let isEdit = (id_Tenant tenant \<noteq> [] \<and>
                    list_ex (\<lambda>t. id_Tenant t = id_Tenant tenant) (getTenants s));
          tenant' = (if id_Tenant tenant = [] then tenant\<lparr>id_Tenant := fresh\<rparr> else tenant);
          s1 = saveTenant s tenant'
      in if isEdit then
           (case reEvaluateTenantMatches toUpperCase s1 tenant' of
              (s2, removedCount) \<Rightarrow> (s2, tenant', removedCount))
         else (s1, tenant', 0))"

definition tenants_DELETE :: "Store \<Rightarrow> jsstring \<Rightarrow> Store" where
  "tenants_DELETE s i =
     deleteTenant (removeRejectedMatchesForTenant (removeTenantTransactionsForTenant s i) i) i"

section \<open>Cascading deletions (the accounts and csv-uploads routes)\<close>

text \<open>The list of accounts itself is not part of the model.\<close>

definition accounts_DELETE :: "Store \<Rightarrow> jsstring \<Rightarrow> Store" where
  "accounts_DELETE s i =
     (let allTransactions = getTransactions s;
          transactionsToDelete = filter (\<lambda>t. itemId t = i) allTransactions;
          transactionIdsToDelete = set (map transactionId transactionsToDelete);
          s1 = s\<lparr>transactions := filter (\<lambda>t. itemId t \<noteq> i) allTransactions\<rparr>;
          s2 = s1\<lparr>tenantTransactions :=
                 filter (\<lambda>tt. transactionId_TT tt \<notin> transactionIdsToDelete)
                   (getTenantTransactions s1)\<rparr>;
          s3 = s2\<lparr>rejectedMatches :=
                 filter (\<lambda>rm. transactionId_RM rm \<notin> transactionIdsToDelete)
                   (getRejectedMatches s2)\<rparr>
      in deleteCsvUploadsForAccount s3 i)"

definition csvUploads_DELETE :: "Store \<Rightarrow> jsstring \<Rightarrow> error + Store" where
  "csvUploads_DELETE s uploadId =
     (if uploadId = [] then Inl BadRequest
      else
        (case deleteCsvUpload s uploadId of
           (s0, None) \<Rightarrow> Inl NotFound
         | (s0, Some upload) \<Rightarrow>
             (let transactionIdsToDelete = set (transactionIds upload);
                  s1 = s0\<lparr>transactions :=
                         filter (\<lambda>t. transactionId t \<notin> transactionIdsToDelete)
                           (getTransactions s0)\<rparr>;
                  s2 = s1\<lparr>tenantTransactions :=
                         filter (\<lambda>tt. transactionId_TT tt \<notin> transactionIdsToDelete)
                           (getTenantTransactions s1)\<rparr>
              in Inr (s2\<lparr>rejectedMatches :=
                         filter (\<lambda>rm. transactionId_RM rm \<notin> transactionIdsToDelete)
                           (getRejectedMatches s2)\<rparr>))))"

section \<open>Requests and reachable stores\<close>

text \<open>
  The operations that write the store: the six handlers above, and the four store operations
  through which the ingestion routes (bank synchronisation and CSV upload) write transactions
  and upload records. A request that is answered with an error changes nothing.
\<close>

datatype Request =
  AutoMatch
| Assign jsstring jsstring
| Unassign jsstring
| PostTenant jsstring Tenant
| DeleteTenant jsstring
| DeleteAccount jsstring
| DeleteCsvUpload jsstring
| SaveTransactions "Transaction list"
| UpdateTransactions "Transaction list"
| RemoveTransactions "jsstring list"
| SaveCsvUpload CsvUpload

fun handle :: "(jsstring \<Rightarrow> jsstring) \<Rightarrow> Store \<Rightarrow> Request \<Rightarrow> Store" where
  "handle toUpperCase s AutoMatch = fst (match_POST toUpperCase s)"
| "handle toUpperCase s (Assign tid x) =
     (case tenantTransactions_POST s tid x of Inl e \<Rightarrow> s | Inr s' \<Rightarrow> s')"
| "handle toUpperCase s (Unassign x) =
     (case tenantTransactions_DELETE s x of Inl e \<Rightarrow> s | Inr s' \<Rightarrow> s')"
| "handle toUpperCase s (PostTenant fresh tenant) = fst (tenants_POST toUpperCase fresh s tenant)"
| "handle toUpperCase s (DeleteTenant i) = tenants_DELETE s i"
| "handle toUpperCase s (DeleteAccount i) = accounts_DELETE s i"
| "handle toUpperCase s (DeleteCsvUpload u) =
     (case csvUploads_DELETE s u of Inl e \<Rightarrow> s | Inr s' \<Rightarrow> s')"
| "handle toUpperCase s (SaveTransactions txs) = saveTransactions s txs"
| "handle toUpperCase s (UpdateTransactions txs) = updateTransactions s txs"
| "handle toUpperCase s (RemoveTransactions ids) = removeTransactions s ids"
| "handle toUpperCase s (SaveCsvUpload u) = saveCsvUpload s u"

inductive reachable :: "(jsstring \<Rightarrow> jsstring) \<Rightarrow> Store \<Rightarrow> bool"
  for toUpperCase :: "jsstring \<Rightarrow> jsstring" where
  reachable_empty: "reachable toUpperCase emptyStore"
| reachable_handle: "reachable toUpperCase s \<Longrightarrow> reachable toUpperCase (handle toUpperCase s r)"

section \<open>Auxiliary notions for the statements\<close>

text \<open>
  A tenant is a candidate for a deposit when the two tests of the inner loop let it through:
  the pair is not in the rejected list and the rule evaluator says \<^verbatim>\<open>isMatch\<close>.
\<close>

definition candidate :: "(jsstring \<Rightarrow> jsstring) \<Rightarrow> Store \<Rightarrow> Transaction \<Rightarrow> Tenant \<Rightarrow> bool" where
  "candidate toUpperCase s deposit tenant =
     (\<not> isMatchRejected s (id_Tenant tenant) (transactionId deposit) \<and>
      isMatch toUpperCase tenant deposit (description_of toUpperCase deposit))"

definition autoLink :: "Tenant \<Rightarrow> Transaction \<Rightarrow> TenantTransaction" where
  "autoLink tenant deposit =
     \<lparr>id_TT = id_Tenant tenant @ str ''-'' @ transactionId deposit,
      tenantId_TT = id_Tenant tenant, transactionId_TT = transactionId deposit,
      manualOverride = False\<rparr>"

definition manualLink :: "jsstring \<Rightarrow> jsstring \<Rightarrow> TenantTransaction" where
  "manualLink tid x =
     \<lparr>id_TT = tid @ str ''-'' @ x, tenantId_TT = tid, transactionId_TT = x,
      manualOverride = True\<rparr>"

definition linkIds :: "Store \<Rightarrow> jsstring set" where
  "linkIds s = set (map transactionId_TT (tenantTransactions s))"

text \<open>One link per transaction identifier.\<close>

definition exclusive :: "Store \<Rightarrow> bool" where
  "exclusive s = distinct (map transactionId_TT (tenantTransactions s))"

text \<open>
  The links that a re-evaluation of \<open>tenant\<close> retracts: the tenant's own automatic links
  whose transaction is gone or does not satisfy the tenant's rule.
\<close>

definition retracts ::
  "(jsstring \<Rightarrow> jsstring) \<Rightarrow> Store \<Rightarrow> Tenant \<Rightarrow> TenantTransaction \<Rightarrow> bool" where
  "retracts toUpperCase s tenant tt =
     (tenantId_TT tt = id_Tenant tenant \<and> \<not> manualOverride tt \<and>
      (case find (\<lambda>t. transactionId t = transactionId_TT tt) (transactions s) of
         None \<Rightarrow> True
       | Some transaction \<Rightarrow> \<not> stillMatches toUpperCase tenant transaction))"

definition retractedIds :: "(jsstring \<Rightarrow> jsstring) \<Rightarrow> Store \<Rightarrow> Tenant \<Rightarrow> jsstring list" where
  "retractedIds toUpperCase s tenant =
     map transactionId_TT (filter (retracts toUpperCase s tenant) (tenantTransactions s))"

text \<open>
  A request spares the pair of tenant \<open>T\<close> and transaction \<open>x\<close> in store \<open>s\<close> when it is
  neither the manual assignment of \<open>x\<close> to \<open>T\<close> nor a cascading deletion that removes the
  records of \<open>T\<close> or of \<open>x\<close>. A list of requests spares the pair when each request does so in
  the store in which it is handled.
\<close>

fun spares :: "jsstring \<Rightarrow> jsstring \<Rightarrow> Store \<Rightarrow> Request \<Rightarrow> bool" where
  "spares T x s (Assign tid y) = (\<not> (tid = T \<and> y = x))"
| "spares T x s (DeleteTenant i) = (i \<noteq> T)"
| "spares T x s (DeleteAccount i) =
     (x \<notin> set (map transactionId (filter (\<lambda>t. itemId t = i) (transactions s))))"
| "spares T x s (DeleteCsvUpload u) =
     (case find (\<lambda>upload. id_Csv upload = u) (csvUploads s) of
        None \<Rightarrow> True
      | Some upload \<Rightarrow> x \<notin> set (transactionIds upload))"
| "spares T x s r = True"

fun sparing :: "(jsstring \<Rightarrow> jsstring) \<Rightarrow> jsstring \<Rightarrow> jsstring \<Rightarrow> Store \<Rightarrow> Request list \<Rightarrow> bool" where
  "sparing toUpperCase T x s [] = True"
| "sparing toUpperCase T x s (r # rs) =
     (spares T x s r \<and> sparing toUpperCase T x (handle toUpperCase s r) rs)"

text \<open>
  The search-term test in the wording of claim C7: some non-empty search term is, after
  upper-casing, a substring of the upper-cased description.
\<close>

definition claimed_termMatch :: "(jsstring \<Rightarrow> jsstring) \<Rightarrow> Tenant \<Rightarrow> Transaction \<Rightarrow> bool" where
  "claimed_termMatch toUpperCase tenant d =
     list_ex (\<lambda>term. term \<noteq> [] \<and>
                includes_str (description_of toUpperCase d) (toUpperCase term))
       (searchTerms tenant)"

section \<open>Example data\<close>

definition tenant_ten1 :: Tenant where
  "tenant_ten1 = \<lparr>id_Tenant = str ''ten1'', name_Tenant = str ''John Smith'',
     property = str ''Unit 1'', expectedRent = Finite 1500, tolerance = Finite 50,
     searchTerms = [str ''SMITH''], accountId_Tenant = str ''acc1'',
     matchMode = Some SearchTerms, exactAmounts = None\<rparr>"

definition tx_t1 :: Transaction where
  "tx_t1 = \<lparr>transactionId = str ''t1'', accountId = str ''acc1'', itemId = str ''item1'',
     amount = Finite (- 1500), date = str ''2024-01-05'', name = str ''Zelle from John Smith'',
     merchantName = None, category = None, pending = False\<rparr>"

definition store1 :: Store where
  "store1 = emptyStore\<lparr>tenants := [tenant_ten1], transactions := [tx_t1]\<rparr>"

definition store_matched :: Store where
  "store_matched = store1\<lparr>tenantTransactions := [autoLink tenant_ten1 tx_t1]\<rparr>"

definition requests2 :: "Request list" where
  "requests2 = [PostTenant (str ''tenant-1'') tenant_ten1, SaveTransactions [tx_t1], AutoMatch,
     Assign (str ''ten2'') (str ''t1'')]"

definition store2 :: Store where
  "store2 = foldl (handle toUpperCase_ASCII) emptyStore requests2"

definition tenant_A :: Tenant where
  "tenant_A = \<lparr>id_Tenant = str ''A'', name_Tenant = str ''A'', property = str ''Unit A'',
     expectedRent = Finite 1000, tolerance = Finite 50, searchTerms = [str ''SMITH''],
     accountId_Tenant = str ''acc1'', matchMode = Some SearchTerms, exactAmounts = None\<rparr>"

definition tenant_B :: Tenant where
  "tenant_B = \<lparr>id_Tenant = str ''B'', name_Tenant = str ''B'', property = str ''Unit B'',
     expectedRent = Finite 1000, tolerance = Finite 50, searchTerms = [str ''SMITH''],
     accountId_Tenant = str ''acc1'', matchMode = Some SearchTerms, exactAmounts = None\<rparr>"

definition deposit_smith :: Transaction where
  "deposit_smith = \<lparr>transactionId = str ''d1'', accountId = str ''acc1'',
     itemId = str ''item1'', amount = Finite (- 1000), date = str ''2024-02-01'',
     name = str ''SMITH'', merchantName = None, category = None, pending = False\<rparr>"

definition storeAB :: Store where
  "storeAB = emptyStore\<lparr>tenants := [tenant_A, tenant_B], transactions := [deposit_smith]\<rparr>"

text \<open>A tenant whose only search term is one space, and one whose term is in lower case.\<close>

definition tenant_blank :: Tenant where
  "tenant_blank = tenant_A\<lparr>id_Tenant := str ''C'', searchTerms := [str '' '']\<rparr>"

definition tenant_lower :: Tenant where
  "tenant_lower = tenant_ten1\<lparr>searchTerms := [str ''smith'']\<rparr>"



text \<open>Tenant \<open>A\<close> with a new rule, and stores in which \<open>A\<close> and \<open>B\<close> hold links.\<close>

definition tenant_A2 :: Tenant where
  "tenant_A2 = tenant_A\<lparr>searchTerms := [str ''JONES'']\<rparr>"

definition store_shared :: Store where
  "store_shared = storeAB\<lparr>tenantTransactions :=
     [autoLink tenant_A deposit_smith, manualLink (str ''B'') (str ''d1'')]\<rparr>"

definition store_auto :: Store where
  "store_auto = storeAB\<lparr>tenantTransactions :=
     [autoLink tenant_A deposit_smith, manualLink (str ''B'') (str ''d2'')]\<rparr>"

definition store_manual :: Store where
  "store_manual = storeAB\<lparr>tenantTransactions :=
     [manualLink (str ''A'') (str ''d1''), manualLink (str ''B'') (str ''d2'')]\<rparr>"

section \<open>Lemmas on the auto-match loops\<close>

lemma match_POST_store1: "match_POST toUpperCase_ASCII store1 = (store_matched, 1)"
  by code_simp

lemma find_None_linkIds:
  "(find (\<lambda>tt. transactionId_TT tt = x) (tenantTransactions s) = None) = (x \<notin> linkIds s)"
  by (auto simp: find_None_iff linkIds_def)

lemma addTenantTransaction_eq:
  "addTenantTransaction s tid x m =
     (if x \<in> linkIds s then s
      else s\<lparr>tenantTransactions := tenantTransactions s @
             [\<lparr>id_TT = tid @ str ''-'' @ x, tenantId_TT = tid, transactionId_TT = x, manualOverride = m\<rparr>]\<rparr>)"
  using find_None_linkIds[of x s]
  by (auto simp: addTenantTransaction_def getTenantTransactions_def split: option.splits)

lemma candidate_cong:
  "rejectedMatches s' = rejectedMatches s \<Longrightarrow> candidate toUpperCase s' d = candidate toUpperCase s d"
  by (simp add: candidate_def fun_eq_iff isMatchRejected_def getRejectedMatches_def)

lemma matchTenants_eq:
  "matchTenants toUpperCase d (description_of toUpperCase d) ts (s, ids, n) =
     (case find (candidate toUpperCase s d) ts of
        None \<Rightarrow> (s, ids, n)
      | Some t \<Rightarrow> (addTenantTransaction s (id_Tenant t) (transactionId d) False,
                   insert (transactionId d) ids, n + 1))"
  by (induction ts) (auto simp: candidate_def)

lemma addTenantTransaction_frame:
  "tenants (addTenantTransaction s tid x m) = tenants s"
  "transactions (addTenantTransaction s tid x m) = transactions s"
  "rejectedMatches (addTenantTransaction s tid x m) = rejectedMatches s"
  "csvUploads (addTenantTransaction s tid x m) = csvUploads s"
  by (simp_all add: addTenantTransaction_eq)

lemma matchTenants_frame:
  assumes "matchTenants toUpperCase d (description_of toUpperCase d) ts (s, ids, n) = (s', ids', n')"
  shows "tenants s' = tenants s" "transactions s' = transactions s"
    "rejectedMatches s' = rejectedMatches s" "csvUploads s' = csvUploads s"
  using assms by (auto simp: matchTenants_eq addTenantTransaction_frame split: option.splits)

lemma matchDeposits_frame:
  "matchDeposits toUpperCase ts ds (s, ids, n) = (s', ids', n') \<Longrightarrow>
   tenants s' = tenants s \<and> transactions s' = transactions s \<and>
   rejectedMatches s' = rejectedMatches s \<and> csvUploads s' = csvUploads s"
proof (induction ds arbitrary: s ids n)
  case Nil
  then show ?case by simp
next
  case (Cons d ds)
  show ?case
  proof (cases "transactionId d \<in> ids")
    case True
    with Cons show ?thesis by simp
  next
    case False
    obtain s1 ids1 n1 where m: "matchTenants toUpperCase d (description_of toUpperCase d) ts (s, ids, n) = (s1, ids1, n1)"
      by (metis prod_cases3)
    with Cons.prems False have "matchDeposits toUpperCase ts ds (s1, ids1, n1) = (s', ids', n')" by simp
    from Cons.IH[OF this] matchTenants_frame[OF m] show ?thesis by simp
  qed
qed

lemma matchDeposits_Cons:
  "matchDeposits toUpperCase ts (d # ds) (s, ids, n) =
     (if transactionId d \<in> ids then matchDeposits toUpperCase ts ds (s, ids, n)
      else case find (candidate toUpperCase s d) ts of
             None \<Rightarrow> matchDeposits toUpperCase ts ds (s, ids, n)
           | Some t \<Rightarrow>
               matchDeposits toUpperCase ts ds
                 (addTenantTransaction s (id_Tenant t) (transactionId d) False,
                  insert (transactionId d) ids, n + 1))"
  by (simp add: matchTenants_eq split: option.splits)

declare matchDeposits.simps(2) [simp del]

lemma matchDeposits_skip:
  assumes "transactionId d \<in> ids \<or> find (candidate toUpperCase s d) ts = None"
  shows "matchDeposits toUpperCase ts (d # ds) (s, ids, n) = matchDeposits toUpperCase ts ds (s, ids, n)"
proof (cases "transactionId d \<in> ids")
  case True
  then show ?thesis by (simp add: matchDeposits_Cons)
next
  case False
  with assms have f: "find (candidate toUpperCase s d) ts = None" by simp
  show ?thesis unfolding matchDeposits_Cons f by simp
qed

lemma matchDeposits_take:
  assumes "transactionId d \<notin> ids" and f: "find (candidate toUpperCase s d) ts = Some t"
  shows "matchDeposits toUpperCase ts (d # ds) (s, ids, n) =
         matchDeposits toUpperCase ts ds
           (addTenantTransaction s (id_Tenant t) (transactionId d) False,
            insert (transactionId d) ids, n + 1)"
  unfolding matchDeposits_Cons f using assms(1) by simp

lemma linkIds_addTenantTransaction:
  "linkIds (addTenantTransaction s tid x m) = insert x (linkIds s)"
  by (auto simp: addTenantTransaction_eq linkIds_def)

text \<open>The additive shape of a run of the loops.\<close>

lemma matchDeposits_appends:
  "matchDeposits toUpperCase ts ds (s, ids, n) = (s', ids', n') \<Longrightarrow>
   \<exists>new. tenantTransactions s' = tenantTransactions s @ new \<and>
         list_all (\<lambda>tt. \<not> manualOverride tt) new"
proof (induction ds arbitrary: s ids n)
  case Nil
  then show ?case by simp
next
  case (Cons d ds)
  show ?case
  proof (cases "transactionId d \<in> ids \<or> find (candidate toUpperCase s d) ts = None")
    case True
    with Cons.prems have "matchDeposits toUpperCase ts ds (s, ids, n) = (s', ids', n')"
      by (simp add: matchDeposits_skip)
    from Cons.IH[OF this] show ?thesis .
  next
    case False
    then obtain t where t: "find (candidate toUpperCase s d) ts = Some t" by auto
    let ?s1 = "addTenantTransaction s (id_Tenant t) (transactionId d) False"
    from Cons.prems False t
    have "matchDeposits toUpperCase ts ds (?s1, insert (transactionId d) ids, n + 1) = (s', ids', n')"
      by (simp add: matchDeposits_take)
    from Cons.IH[OF this] obtain new where
      new: "tenantTransactions s' = tenantTransactions ?s1 @ new"
        "list_all (\<lambda>tt. \<not> manualOverride tt) new" by blast
    obtain one where one: "tenantTransactions ?s1 = tenantTransactions s @ one"
        "list_all (\<lambda>tt. \<not> manualOverride tt) one"
      by (cases "transactionId d \<in> linkIds s") (simp_all add: addTenantTransaction_eq)
    from new one have "tenantTransactions s' = tenantTransactions s @ (one @ new)"
      "list_all (\<lambda>tt. \<not> manualOverride tt) (one @ new)" by simp_all
    then show ?thesis by blast
  qed
qed

text \<open>The set of assigned identifiers follows the store.\<close>

lemma matchDeposits_ids:
  "matchDeposits toUpperCase ts ds (s, ids, n) = (s', ids', n') \<Longrightarrow> ids = linkIds s \<Longrightarrow>
   ids' = linkIds s' \<and> ids \<subseteq> ids'"
proof (induction ds arbitrary: s ids n)
  case Nil
  then show ?case by auto
next
  case (Cons d ds)
  show ?case
  proof (cases "transactionId d \<in> ids \<or> find (candidate toUpperCase s d) ts = None")
    case True
    with Cons.prems have "matchDeposits toUpperCase ts ds (s, ids, n) = (s', ids', n')"
      by (simp add: matchDeposits_skip)
    from Cons.IH[OF this Cons.prems(2)] show ?thesis .
  next
    case False
    then obtain t where t: "find (candidate toUpperCase s d) ts = Some t" by auto
    let ?s1 = "addTenantTransaction s (id_Tenant t) (transactionId d) False"
    from Cons.prems False t
    have "matchDeposits toUpperCase ts ds (?s1, insert (transactionId d) ids, n + 1) = (s', ids', n')"
      by (simp add: matchDeposits_take)
    from Cons.IH[OF this] Cons.prems(2) show ?thesis
      by (auto simp: linkIds_addTenantTransaction)
  qed
qed

text \<open>After a run, no unassigned deposit of the list has a candidate toUpperCase tenant left.\<close>

lemma matchDeposits_exhausts:
  "matchDeposits toUpperCase ts ds (s, ids, n) = (s', ids', n') \<Longrightarrow> ids = linkIds s \<Longrightarrow>
   d \<in> set ds \<Longrightarrow> transactionId d \<notin> ids' \<Longrightarrow> find (candidate toUpperCase s d) ts = None"
proof (induction ds arbitrary: s ids n)
  case Nil
  then show ?case by simp
next
  case (Cons e ds)
  show ?case
  proof (cases "transactionId e \<in> ids \<or> find (candidate toUpperCase s e) ts = None")
    case True
    with Cons.prems have run: "matchDeposits toUpperCase ts ds (s, ids, n) = (s', ids', n')"
      by (simp add: matchDeposits_skip)
    show ?thesis
    proof (cases "d = e")
      case True
      from matchDeposits_ids[OF run Cons.prems(2)] Cons.prems(4) True
      have "transactionId e \<notin> ids" by auto
      with \<open>transactionId e \<in> ids \<or> find (candidate toUpperCase s e) ts = None\<close> True show ?thesis by simp
    next
      case False
      with Cons.prems(3) have "d \<in> set ds" by simp
      from Cons.IH[OF run Cons.prems(2) this Cons.prems(4)] show ?thesis .
    qed
  next
    case False
    then obtain t where t: "find (candidate toUpperCase s e) ts = Some t" by auto
    let ?s1 = "addTenantTransaction s (id_Tenant t) (transactionId e) False"
    let ?ids1 = "insert (transactionId e) ids"
    from Cons.prems False t
    have run: "matchDeposits toUpperCase ts ds (?s1, ?ids1, n + 1) = (s', ids', n')"
      by (simp add: matchDeposits_take)
    have ids1: "?ids1 = linkIds ?s1"
      using Cons.prems(2) by (simp add: linkIds_addTenantTransaction)
    from matchDeposits_ids[OF run ids1] Cons.prems(4)
    have ne: "transactionId d \<noteq> transactionId e" by auto
    with Cons.prems(3) have "d \<in> set ds" by auto
    from Cons.IH[OF run ids1 this Cons.prems(4)]
    have "find (candidate toUpperCase ?s1 d) ts = None" .
    then show ?thesis
      by (simp add: candidate_cong[of ?s1 s] addTenantTransaction_frame)
  qed
qed

lemma matchDeposits_idle:
  "(\<And>d. d \<in> set ds \<Longrightarrow> transactionId d \<notin> ids \<Longrightarrow> find (candidate toUpperCase s d) ts = None) \<Longrightarrow>
   matchDeposits toUpperCase ts ds (s, ids, n) = (s, ids, n)"
proof (induction ds)
  case Nil
  show ?case by simp
next
  case (Cons d ds)
  have "transactionId d \<in> ids \<or> find (candidate toUpperCase s d) ts = None"
  proof (cases "transactionId d \<in> ids")
    case True
    then show ?thesis by simp
  next
    case False
    have "find (candidate toUpperCase s d) ts = None"
      by (rule Cons.prems) (simp_all add: False)
    then show ?thesis by simp
  qed
  then have "matchDeposits toUpperCase ts (d # ds) (s, ids, n) = matchDeposits toUpperCase ts ds (s, ids, n)"
    by (rule matchDeposits_skip)
  also have "\<dots> = (s, ids, n)"
    using Cons.prems by (intro Cons.IH) simp
  finally show ?case .
qed

lemma match_POST_twice:
  assumes "match_POST toUpperCase s = (s1, n1)"
  shows "match_POST toUpperCase s1 = (s1, 0)"
proof -
  let ?ds = "filter (\<lambda>t. num_lt (amount t) (Finite 0)) (transactions s)"
  obtain ids1 where run:
    "matchDeposits toUpperCase (tenants s) ?ds (s, linkIds s, 0) = (s1, ids1, n1)"
    using assms
    by (auto simp: match_POST_def Let_def getTenants_def getTransactions_def
        getTenantTransactions_def linkIds_def split: prod.splits)
  from matchDeposits_frame[OF run] have fr: "tenants s1 = tenants s"
    "transactions s1 = transactions s" "rejectedMatches s1 = rejectedMatches s" by simp_all
  from matchDeposits_ids[OF run] have ids1: "ids1 = linkIds s1" by simp
  have "find (candidate toUpperCase s1 d) (tenants s) = None"
    if "d \<in> set ?ds" "transactionId d \<notin> linkIds s1" for d
    using matchDeposits_exhausts[OF run refl that(1)] that(2) ids1
    by (simp add: candidate_cong[OF fr(3)])
  then have "matchDeposits toUpperCase (tenants s) ?ds (s1, linkIds s1, 0) = (s1, linkIds s1, 0)"
    by (rule matchDeposits_idle)
  then show ?thesis
    by (simp add: match_POST_def Let_def getTenants_def getTransactions_def
        getTenantTransactions_def linkIds_def fr)
qed

section \<open>Claims on the auto-match route\<close>

text \<open>
  C3 (idempotence). For every store, a second run of the auto-match route directly after a
  first one reports \<^verbatim>\<open>matched == 0\<close>, and it leaves the store as the first run left it.
\<close>

theorem C3_auto_match_idempotent:
  "snd (match_POST toUpperCase (fst (match_POST toUpperCase s))) = 0 \<and>
   fst (match_POST toUpperCase (fst (match_POST toUpperCase s))) = fst (match_POST toUpperCase s)"
  using match_POST_twice[of toUpperCase s "fst (match_POST toUpperCase s)" "snd (match_POST toUpperCase s)"] by simp

theorem C3_auto_match_idempotent_witness:
  "snd (match_POST toUpperCase_ASCII store1) = 1 \<and> snd (match_POST toUpperCase_ASCII (fst (match_POST toUpperCase_ASCII store1))) = 0"
  using C3_auto_match_idempotent[of toUpperCase_ASCII store1] by (simp add: match_POST_store1)

text \<open>
  C9 (the run is additive). For every store, the links after a run of the auto-match route
  are the links before it, unchanged and in the same order, followed by new links that all
  have \<^verbatim>\<open>manualOverride = false\<close>; tenants, transactions, rejected matches and upload
  records are the same after the run.
\<close>

theorem C9_auto_match_additive:
  "(\<exists>new. tenantTransactions (fst (match_POST toUpperCase s)) = tenantTransactions s @ new \<and>
          list_all (\<lambda>tt. \<not> manualOverride tt) new) \<and>
   tenants (fst (match_POST toUpperCase s)) = tenants s \<and>
   transactions (fst (match_POST toUpperCase s)) = transactions s \<and>
   rejectedMatches (fst (match_POST toUpperCase s)) = rejectedMatches s \<and>
   csvUploads (fst (match_POST toUpperCase s)) = csvUploads s"
proof -
  obtain s' ids' n' where run:
    "matchDeposits toUpperCase (tenants s) (filter (\<lambda>t. num_lt (amount t) (Finite 0)) (transactions s))
       (s, linkIds s, 0) = (s', ids', n')"
    by (metis prod_cases3)
  then have "fst (match_POST toUpperCase s) = s'"
    by (simp add: match_POST_def Let_def getTenants_def getTransactions_def
        getTenantTransactions_def linkIds_def)
  with matchDeposits_appends[OF run] matchDeposits_frame[OF run] show ?thesis by simp
qed

theorem C9_auto_match_additive_witness:
  "(\<exists>new. tenantTransactions (fst (match_POST toUpperCase_ASCII store1)) = tenantTransactions store1 @ new \<and>
          list_all (\<lambda>tt. \<not> manualOverride tt) new) \<and>
   tenants (fst (match_POST toUpperCase_ASCII store1)) = tenants store1 \<and>
   snd (match_POST toUpperCase_ASCII store1) = 1"
proof -
  have "snd (match_POST toUpperCase_ASCII store1) = 1"
    by (simp add: match_POST_store1)
  with C9_auto_match_additive[of toUpperCase_ASCII store1] show ?thesis
    by blast
qed

section \<open>Exclusivity: one link per transaction\<close>

lemma exclusive_links_cong:
  "tenantTransactions s' = tenantTransactions s \<Longrightarrow> exclusive s' = exclusive s"
  by (simp add: exclusive_def)

lemma exclusive_filter:
  "exclusive s \<Longrightarrow> tenantTransactions s' = filter P (tenantTransactions s) \<Longrightarrow> exclusive s'"
  by (simp add: exclusive_def distinct_map_filter)

lemma exclusive_addTenantTransaction:
  "exclusive s \<Longrightarrow> exclusive (addTenantTransaction s tid x m)"
  by (auto simp: addTenantTransaction_eq exclusive_def linkIds_def)

lemma exclusive_matchDeposits:
  "matchDeposits toUpperCase ts ds (s, ids, n) = (s', ids', n') \<Longrightarrow> exclusive s \<Longrightarrow> exclusive s'"
proof (induction ds arbitrary: s ids n)
  case Nil
  then show ?case by simp
next
  case (Cons d ds)
  show ?case
  proof (cases "transactionId d \<in> ids \<or> find (candidate toUpperCase s d) ts = None")
    case True
    with Cons.prems have "matchDeposits toUpperCase ts ds (s, ids, n) = (s', ids', n')"
      by (simp add: matchDeposits_skip)
    from Cons.IH[OF this Cons.prems(2)] show ?thesis .
  next
    case False
    then obtain t where t: "find (candidate toUpperCase s d) ts = Some t" by auto
    let ?s1 = "addTenantTransaction s (id_Tenant t) (transactionId d) False"
    from Cons.prems False t
    have "matchDeposits toUpperCase ts ds (?s1, insert (transactionId d) ids, n + 1) = (s', ids', n')"
      by (simp add: matchDeposits_take)
    from Cons.IH[OF this exclusive_addTenantTransaction[OF Cons.prems(2)]] show ?thesis .
  qed
qed

lemma exclusive_match_POST: "exclusive s \<Longrightarrow> exclusive (fst (match_POST toUpperCase s))"
proof -
  assume e: "exclusive s"
  obtain s' ids' n' where run:
    "matchDeposits toUpperCase (tenants s) (filter (\<lambda>t. num_lt (amount t) (Finite 0)) (transactions s))
       (s, linkIds s, 0) = (s', ids', n')"
    by (metis prod_cases3)
  then have "fst (match_POST toUpperCase s) = s'"
    by (simp add: match_POST_def Let_def getTenants_def getTransactions_def
        getTenantTransactions_def linkIds_def)
  with exclusive_matchDeposits[OF run e] show ?thesis by simp
qed

lemma exclusive_tenantTransactions_POST:
  "exclusive s \<Longrightarrow> tenantTransactions_POST s tid x = Inr s' \<Longrightarrow> exclusive s'"
proof -
  assume e: "exclusive s" and p: "tenantTransactions_POST s tid x = Inr s'"
  have "exclusive (removeRejectedMatch s tid x)"
    using e by (simp add: exclusive_def removeRejectedMatch_def)
  from exclusive_addTenantTransaction[OF this] p show ?thesis
    by (auto simp: tenantTransactions_POST_def split: if_splits)
qed

lemma tenantTransactions_addRejectedMatch:
  "tenantTransactions (addRejectedMatch s tid x) = tenantTransactions s"
  by (simp add: addRejectedMatch_def Let_def split: option.splits)

lemma exclusive_tenantTransactions_DELETE:
  "exclusive s \<Longrightarrow> tenantTransactions_DELETE s x = Inr s' \<Longrightarrow> exclusive s'"
  by (auto simp: tenantTransactions_DELETE_def Let_def removeTenantTransaction_def
      getTenantTransactions_def exclusive_def distinct_map_filter
      tenantTransactions_addRejectedMatch split: if_splits option.splits)

lemma tenantTransactions_reEvaluate:
  "tenantTransactions (fst (reEvaluateTenantMatches toUpperCase s tenant)) =
     filter (\<lambda>tt. transactionId_TT tt \<notin>
         set (collectToRemove toUpperCase (transactions s) tenant
                (filter (\<lambda>tt. tenantId_TT tt = id_Tenant tenant \<and> \<not> manualOverride tt)
                   (tenantTransactions s)) []))
       (tenantTransactions s)"
  by (simp add: reEvaluateTenantMatches_def Let_def getTenantTransactions_def getTransactions_def)

lemma exclusive_reEvaluate:
  "exclusive s \<Longrightarrow> exclusive (fst (reEvaluateTenantMatches toUpperCase s tenant))"
  by (rule exclusive_filter[OF _ tenantTransactions_reEvaluate])

lemma tenantTransactions_saveTenant:
  "tenantTransactions (saveTenant s t) = tenantTransactions s"
  by (simp add: saveTenant_def split: option.splits)

lemma exclusive_tenants_POST:
  "exclusive s \<Longrightarrow> exclusive (fst (tenants_POST toUpperCase fresh s tenant))"
proof -
  assume e: "exclusive s"
  have e1: "exclusive (saveTenant s t)" for t
    using e by (simp add: exclusive_def tenantTransactions_saveTenant)
  show ?thesis
    using e1 exclusive_reEvaluate[OF e1]
    by (simp add: tenants_POST_def Let_def case_prod_beta)
qed

lemma exclusive_tenants_DELETE: "exclusive s \<Longrightarrow> exclusive (tenants_DELETE s i)"
  by (simp add: tenants_DELETE_def deleteTenant_def removeRejectedMatchesForTenant_def
      removeTenantTransactionsForTenant_def getTenantTransactions_def exclusive_def
      distinct_map_filter)

lemma exclusive_accounts_DELETE: "exclusive s \<Longrightarrow> exclusive (accounts_DELETE s i)"
  by (simp add: accounts_DELETE_def Let_def deleteCsvUploadsForAccount_def
      getTenantTransactions_def exclusive_def distinct_map_filter)

lemma exclusive_csvUploads_DELETE:
  "exclusive s \<Longrightarrow> csvUploads_DELETE s u = Inr s' \<Longrightarrow> exclusive s'"
  by (auto simp: csvUploads_DELETE_def Let_def deleteCsvUpload_def getTenantTransactions_def
      exclusive_def distinct_map_filter split: if_splits option.splits)

lemma exclusive_handle: "exclusive s \<Longrightarrow> exclusive (handle toUpperCase s r)"
proof (cases r)
  case AutoMatch
  assume "exclusive s"
  with AutoMatch show ?thesis by (simp add: exclusive_match_POST)
next
  case (Assign tid x)
  assume "exclusive s"
  with Assign show ?thesis
    by (auto split: sum.splits dest: exclusive_tenantTransactions_POST)
next
  case (Unassign x)
  assume "exclusive s"
  with Unassign show ?thesis
    by (auto split: sum.splits dest: exclusive_tenantTransactions_DELETE)
next
  case (PostTenant fresh tenant)
  assume "exclusive s"
  with PostTenant show ?thesis by (simp add: exclusive_tenants_POST)
next
  case (DeleteTenant i)
  assume "exclusive s"
  with DeleteTenant show ?thesis by (simp add: exclusive_tenants_DELETE)
next
  case (DeleteAccount i)
  assume "exclusive s"
  with DeleteAccount show ?thesis by (simp add: exclusive_accounts_DELETE)
next
  case (DeleteCsvUpload u)
  assume "exclusive s"
  with DeleteCsvUpload show ?thesis
    by (auto split: sum.splits dest: exclusive_csvUploads_DELETE)
next
  case (SaveTransactions txs)
  assume "exclusive s"
  with SaveTransactions show ?thesis
    by (simp add: saveTransactions_def Let_def exclusive_def)
next
  case (UpdateTransactions txs)
  assume "exclusive s"
  with UpdateTransactions show ?thesis
    by (simp add: updateTransactions_def Let_def exclusive_def)
next
  case (RemoveTransactions ids)
  assume "exclusive s"
  with RemoveTransactions show ?thesis
    by (simp add: removeTransactions_def exclusive_def)
next
  case (SaveCsvUpload u)
  assume "exclusive s"
  with SaveCsvUpload show ?thesis
    by (simp add: saveCsvUpload_def exclusive_def split: option.splits)
qed

lemma reachable_exclusive: "reachable toUpperCase s \<Longrightarrow> exclusive s"
  by (induction rule: reachable.induct)
     (simp_all add: exclusive_def emptyStore_def exclusive_handle[unfolded exclusive_def])

lemma distinct_map_filter_le1:
  "distinct (map f xs) \<Longrightarrow> length (filter (\<lambda>y. f y = x) xs) \<le> 1"
proof (induction xs)
  case Nil
  show ?case by simp
next
  case (Cons a xs)
  show ?case
  proof (cases "f a = x")
    case True
    with Cons.prems have "x \<notin> f ` set xs" by auto
    then have "filter (\<lambda>y. f y = x) xs = []" by (auto simp: filter_empty_conv)
    with True show ?thesis by simp
  next
    case False
    with Cons show ?thesis by simp
  qed
qed

lemma reachable_foldl:
  "reachable toUpperCase s \<Longrightarrow> reachable toUpperCase (foldl (handle toUpperCase) s rs)"
  by (induction rs arbitrary: s) (simp_all add: reachable_handle)

text \<open>
  C2 (exclusivity). In every store that the requests can reach from the empty store (auto-match
  runs, manual assigns, unassigns, tenant saves with their re-evaluation, the cascading
  deletions of tenants, accounts and uploads, and the ingestion of transactions), at most one
  link refers to a given transaction identifier.
\<close>

theorem C2_exclusivity:
  "reachable toUpperCase s \<Longrightarrow> length (filter (\<lambda>tt. transactionId_TT tt = x) (tenantTransactions s)) \<le> 1"
  using reachable_exclusive[of toUpperCase s]
    distinct_map_filter_le1[of transactionId_TT "tenantTransactions s" x]
  by (simp add: exclusive_def)

lemma store2_links:
  "tenantTransactions store2 = [autoLink tenant_ten1 tx_t1]"
  "length (filter (\<lambda>tt. transactionId_TT tt = str ''t1'') [autoLink tenant_ten1 tx_t1]) = 1"
  by code_simp+

theorem C2_exclusivity_witness:
  "reachable toUpperCase_ASCII store2 \<and>
   length (filter (\<lambda>tt. transactionId_TT tt = str ''t1'') (tenantTransactions store2)) = 1"
proof -
  have r: "reachable toUpperCase_ASCII store2"
    unfolding store2_def by (rule reachable_foldl[OF reachable_empty])
  have "length (filter (\<lambda>tt. transactionId_TT tt = str ''t1'') (tenantTransactions store2)) \<ge> 1"
    by (simp only: store2_links)
  with C2_exclusivity[OF r, of "str ''t1''"] r show ?thesis by simp
qed

section \<open>First match wins\<close>

lemma links_addTenantTransaction_fresh:
  "x \<notin> linkIds s \<Longrightarrow>
   tenantTransactions (addTenantTransaction s tid x m) = tenantTransactions s @
     [\<lparr>id_TT = tid @ str ''-'' @ x, tenantId_TT = tid, transactionId_TT = x, manualOverride = m\<rparr>]"
  by (simp add: addTenantTransaction_eq)

lemma filter_links_empty:
  "x \<notin> linkIds s \<Longrightarrow> filter (\<lambda>tt. transactionId_TT tt = x) (tenantTransactions s) = []"
  by (auto simp: linkIds_def filter_empty_conv)

lemma addTenantTransaction_keeps:
  "x \<in> linkIds s \<Longrightarrow>
   filter (\<lambda>tt. transactionId_TT tt = x) (tenantTransactions (addTenantTransaction s tid y m)) =
   filter (\<lambda>tt. transactionId_TT tt = x) (tenantTransactions s)"
  by (auto simp: addTenantTransaction_eq)

lemma matchDeposits_keeps:
  "matchDeposits toUpperCase ts ds (s, ids, n) = (s', ids', n') \<Longrightarrow> x \<in> linkIds s \<Longrightarrow>
   filter (\<lambda>tt. transactionId_TT tt = x) (tenantTransactions s') =
   filter (\<lambda>tt. transactionId_TT tt = x) (tenantTransactions s)"
proof (induction ds arbitrary: s ids n)
  case Nil
  then show ?case by simp
next
  case (Cons d ds)
  show ?case
  proof (cases "transactionId d \<in> ids \<or> find (candidate toUpperCase s d) ts = None")
    case True
    with Cons.prems have "matchDeposits toUpperCase ts ds (s, ids, n) = (s', ids', n')"
      by (simp add: matchDeposits_skip)
    from Cons.IH[OF this Cons.prems(2)] show ?thesis .
  next
    case False
    then obtain t where t: "find (candidate toUpperCase s d) ts = Some t" by auto
    let ?s1 = "addTenantTransaction s (id_Tenant t) (transactionId d) False"
    from Cons.prems False t
    have run: "matchDeposits toUpperCase ts ds (?s1, insert (transactionId d) ids, n + 1) = (s', ids', n')"
      by (simp add: matchDeposits_take)
    have "x \<in> linkIds ?s1"
      using Cons.prems(2) by (simp add: linkIds_addTenantTransaction)
    from Cons.IH[OF run this] addTenantTransaction_keeps[OF Cons.prems(2)]
    show ?thesis by simp
  qed
qed

lemma matchDeposits_first_match:
  "matchDeposits toUpperCase ts ds (s, ids, n) = (s', ids', n') \<Longrightarrow> ids = linkIds s \<Longrightarrow>
   find (\<lambda>e. transactionId e = transactionId d) ds = Some d \<Longrightarrow>
   transactionId d \<notin> ids \<Longrightarrow> find (candidate toUpperCase s d) ts = Some t \<Longrightarrow>
   filter (\<lambda>tt. transactionId_TT tt = transactionId d) (tenantTransactions s') = [autoLink t d]"
proof (induction ds arbitrary: s ids n)
  case Nil
  then show ?case by simp
next
  case (Cons e ds)
  show ?case
  proof (cases "transactionId e = transactionId d")
    case True
    with Cons.prems(3) have ed: "e = d" by simp
    let ?s1 = "addTenantTransaction s (id_Tenant t) (transactionId d) False"
    from Cons.prems(1,4,5) ed
    have run: "matchDeposits toUpperCase ts ds (?s1, insert (transactionId d) ids, n + 1) = (s', ids', n')"
      by (simp add: matchDeposits_take)
    have fresh: "transactionId d \<notin> linkIds s"
      using Cons.prems(2,4) by simp
    have "transactionId d \<in> linkIds ?s1"
      by (simp add: linkIds_addTenantTransaction)
    from matchDeposits_keeps[OF run this]
    show ?thesis
      by (simp add: links_addTenantTransaction_fresh[OF fresh] filter_links_empty[OF fresh]
          autoLink_def)
  next
    case False
    with Cons.prems(3) have later: "find (\<lambda>e. transactionId e = transactionId d) ds = Some d"
      by simp
    show ?thesis
    proof (cases "transactionId e \<in> ids \<or> find (candidate toUpperCase s e) ts = None")
      case True
      with Cons.prems(1) have "matchDeposits toUpperCase ts ds (s, ids, n) = (s', ids', n')"
        by (simp add: matchDeposits_skip)
      from Cons.IH[OF this Cons.prems(2) later Cons.prems(4,5)] show ?thesis .
    next
      case False
      then obtain u where u: "find (candidate toUpperCase s e) ts = Some u" by auto
      let ?s1 = "addTenantTransaction s (id_Tenant u) (transactionId e) False"
      let ?ids1 = "insert (transactionId e) ids"
      from Cons.prems(1) False u
      have run: "matchDeposits toUpperCase ts ds (?s1, ?ids1, n + 1) = (s', ids', n')"
        by (simp add: matchDeposits_take)
      have ids1: "?ids1 = linkIds ?s1"
        using Cons.prems(2) by (simp add: linkIds_addTenantTransaction)
      have notin: "transactionId d \<notin> ?ids1"
        using Cons.prems(4) \<open>transactionId e \<noteq> transactionId d\<close> by auto
      have cand: "find (candidate toUpperCase ?s1 d) ts = Some t"
        using Cons.prems(5) by (simp add: candidate_cong[of ?s1 s] addTenantTransaction_frame)
      from Cons.IH[OF run ids1 later notin cand] show ?thesis .
    qed
  qed
qed

text \<open>
  C6 (first match wins). Let \<open>d\<close> be a deposit of the store, the first one that carries its
  identifier (always so when identifiers are unique), and not yet assigned. Let \<open>t\<close> be the
  first tenant in the stored order that is a candidate for \<open>d\<close>: not rejected for it and with
  a rule that \<open>d\<close> satisfies. Then after a run of the auto-match route exactly one link refers
  to \<open>d\<close>, and it is the automatic link to \<open>t\<close>; no later tenant gets a link to \<open>d\<close>, however
  many of them are candidates as well.
\<close>

theorem C6_first_match_wins:
  assumes "find (\<lambda>e. transactionId e = transactionId d)
             (filter (\<lambda>e. num_lt (amount e) (Finite 0)) (transactions s)) = Some d"
    and "getTenantTransactionByTransactionId s (transactionId d) = None"
    and "find (candidate toUpperCase s d) (tenants s) = Some t"
  shows "filter (\<lambda>tt. transactionId_TT tt = transactionId d)
           (tenantTransactions (fst (match_POST toUpperCase s))) = [autoLink t d]"
proof -
  obtain s' ids' n' where run:
    "matchDeposits toUpperCase (tenants s) (filter (\<lambda>t. num_lt (amount t) (Finite 0)) (transactions s))
       (s, linkIds s, 0) = (s', ids', n')"
    by (metis prod_cases3)
  then have res: "fst (match_POST toUpperCase s) = s'"
    by (simp add: match_POST_def Let_def getTenants_def getTransactions_def
        getTenantTransactions_def linkIds_def)
  have "transactionId d \<notin> linkIds s"
    using assms(2) find_None_linkIds[of "transactionId d" s]
    by (simp add: getTenantTransactionByTransactionId_def getTenantTransactions_def)
  from matchDeposits_first_match[OF run refl assms(1) this assms(3)] res
  show ?thesis by simp
qed

lemma storeAB_facts:
  "find (\<lambda>e. transactionId e = transactionId deposit_smith)
     (filter (\<lambda>e. num_lt (amount e) (Finite 0)) (transactions storeAB)) = Some deposit_smith"
  "getTenantTransactionByTransactionId storeAB (transactionId deposit_smith) = None"
  "candidate toUpperCase_ASCII storeAB deposit_smith tenant_A"
  "candidate toUpperCase_ASCII storeAB deposit_smith tenant_B"
  "find (candidate toUpperCase_ASCII storeAB deposit_smith) (tenants storeAB) = Some tenant_A"
  "tenants storeAB = [tenant_A, tenant_B]"
  "tenantTransactions (fst (match_POST toUpperCase_ASCII storeAB)) =
     [autoLink tenant_A deposit_smith]"
  "tenantId_TT (autoLink tenant_A deposit_smith) = str ''A''"
  by code_simp+

theorem C6_first_match_wins_witness:
  "tenants storeAB = [tenant_A, tenant_B] \<and>
   candidate toUpperCase_ASCII storeAB deposit_smith tenant_A \<and>
   candidate toUpperCase_ASCII storeAB deposit_smith tenant_B \<and>
   filter (\<lambda>tt. transactionId_TT tt = transactionId deposit_smith)
     (tenantTransactions (fst (match_POST toUpperCase_ASCII storeAB))) =
     [autoLink tenant_A deposit_smith] \<and>
   tenantTransactions (fst (match_POST toUpperCase_ASCII storeAB)) =
     [autoLink tenant_A deposit_smith] \<and>
   tenantId_TT (autoLink tenant_A deposit_smith) = str ''A''"
  using C6_first_match_wins[OF storeAB_facts(1,2,5)] storeAB_facts(3,4,6,7,8)
  by blast

section \<open>The rule evaluator\<close>

text \<open>
  Three computations with doubles, as the model carries them out: the nearest double to 500.4,
  the sum \<^verbatim>\<open>500.4 + 0.2\<close>, which is 500.59999999999997 and less than the double 500.6, and
  the difference \<^verbatim>\<open>875.01 - 875\<close>, which is less than the double 0.01.
\<close>

lemma double_examples:
  "toDouble (5004 / 10) = Finite (4401564948312883 / 8796093022208)"
  "num_add (toDouble (5004 / 10)) (toDouble (2 / 10)) =
     Finite (8806648333834649 / 17592186044416)"
  "toDouble (5006 / 10) = Finite (4403324166917325 / 8796093022208)"
  "num_lt (num_add (toDouble (5004 / 10)) (toDouble (2 / 10))) (toDouble (5006 / 10))"
  "num_lt (num_abs (num_sub (toDouble (87501 / 100)) (Finite 875))) (toDouble (1 / 100))"
  "num_sub (Finite 1500) (Finite 50) = Finite 1450"
  "num_add (Finite 1500) (Finite 50) = Finite 1550"
  by code_simp+

lemma includes_str_sublist: "includes_str s sub = sublist sub s"
  by (induction s) (auto simp: sublist_Cons_right)

lemma dropWhile_has_rest:
  "(\<exists>c\<in>set (dropWhile P xs). \<not> P c) = (\<exists>c\<in>set xs. \<not> P c)"
proof (induction xs)
  case Nil
  show ?case by simp
next
  case (Cons a xs)
  then show ?case by auto
qed

lemma trim_nonempty: "(trim s \<noteq> []) = (\<exists>c\<in>set s. \<not> isWhiteSpace c)"
proof -
  have "(trim s \<noteq> []) = (\<exists>c\<in>set (dropWhile isWhiteSpace s). \<not> isWhiteSpace c)"
    by (simp add: trim_def dropWhile_eq_Nil_conv)
  then show ?thesis by (simp add: dropWhile_has_rest)
qed

lemma isMatch_searchTerms:
  assumes "matchMode tenant \<noteq> Some ExactAmounts"
  shows "isMatch toUpperCase tenant d desc =
     (num_ge (num_abs (amount d)) (num_sub (expectedRent tenant) (tolerance tenant)) \<and>
      num_le (num_abs (amount d)) (num_add (expectedRent tenant) (tolerance tenant)) \<and>
      list_ex (\<lambda>term. trim term \<noteq> [] \<and> includes_str desc (toUpperCase term))
        (searchTerms tenant))"
proof (cases "matchMode tenant")
  case None
  then show ?thesis by (auto simp: isMatch_def Let_def)
next
  case (Some m)
  with assms have "m = SearchTerms" by (cases m) simp_all
  with Some show ?thesis by (auto simp: isMatch_def Let_def)
qed

lemma stillMatches_isMatch:
  "stillMatches toUpperCase tenant d =
     isMatch toUpperCase tenant d (description_of toUpperCase d)"
  by (simp add: stillMatches_def isMatch_def Let_def)

text \<open>
  C7, as amended. Let \<open>toUpperCase\<close> be the upper-casing function of the engine, whatever it
  is. For every tenant in search-terms mode (the mode is not \<^verbatim>\<open>exactAmounts\<close>) and every
  transaction whose absolute amount passes the amount filter (it lies between the doubles
  \<^verbatim>\<open>expectedRent - tolerance\<close> and \<^verbatim>\<open>expectedRent + tolerance\<close>), both copies of the rule
  evaluator (the auto-match route and the re-evaluation) return true exactly when some search
  term that contains a code unit other than white space is, after upper-casing, a contiguous
  part of the upper-cased text made of the name, a space and the merchant name. A search term
  made of white space only never counts.
\<close>

theorem C7_search_terms:
  assumes "matchMode tenant \<noteq> Some ExactAmounts"
    and "num_ge (num_abs (amount d)) (num_sub (expectedRent tenant) (tolerance tenant))"
    and "num_le (num_abs (amount d)) (num_add (expectedRent tenant) (tolerance tenant))"
  shows "isMatch toUpperCase tenant d (description_of toUpperCase d) =
     (\<exists>term\<in>set (searchTerms tenant). (\<exists>c\<in>set term. \<not> isWhiteSpace c) \<and>
        sublist (toUpperCase term)
          (toUpperCase
             (name d @ str '' '' @ (case merchantName d of None \<Rightarrow> [] | Some m \<Rightarrow> m))))
     \<and> stillMatches toUpperCase tenant d =
         isMatch toUpperCase tenant d (description_of toUpperCase d)"
  using assms(2,3)
  by (simp add: isMatch_searchTerms[OF assms(1)] stillMatches_isMatch list_ex_iff trim_nonempty
      includes_str_sublist description_of_def)

text \<open>
  In the witness the search term is \<^verbatim>\<open>smith\<close> and the name of the transaction is
  \<^verbatim>\<open>Zelle from John Smith\<close>: the term occurs only after both are upper-cased.
\<close>

lemma C7_facts:
  "matchMode tenant_lower \<noteq> Some ExactAmounts"
  "num_ge (num_abs (amount tx_t1))
     (num_sub (expectedRent tenant_lower) (tolerance tenant_lower))"
  "num_le (num_abs (amount tx_t1))
     (num_add (expectedRent tenant_lower) (tolerance tenant_lower))"
  "isMatch toUpperCase_ASCII tenant_lower tx_t1 (description_of toUpperCase_ASCII tx_t1)"
  "searchTerms tenant_lower = [str ''smith'']"
  "name tx_t1 = str ''Zelle from John Smith''"
  "\<not> includes_str (name tx_t1) (str ''smith'')"
  "expectedRent tenant_blank = Finite 1000"
  "num_ge (num_abs (amount deposit_smith))
     (num_sub (expectedRent tenant_blank) (tolerance tenant_blank))"
  "num_le (num_abs (amount deposit_smith))
     (num_add (expectedRent tenant_blank) (tolerance tenant_blank))"
  "claimed_termMatch toUpperCase_ASCII tenant_blank deposit_smith"
  "\<not> isMatch toUpperCase_ASCII tenant_blank deposit_smith
       (description_of toUpperCase_ASCII deposit_smith)"
  "\<not> stillMatches toUpperCase_ASCII tenant_blank deposit_smith"
  "matchMode tenant_blank = Some SearchTerms"
  "searchTerms tenant_blank = [str '' '']"
  by code_simp+

theorem C7_search_terms_witness:
  "matchMode tenant_lower \<noteq> Some ExactAmounts \<and>
   num_ge (num_abs (amount tx_t1))
     (num_sub (expectedRent tenant_lower) (tolerance tenant_lower)) \<and>
   num_le (num_abs (amount tx_t1))
     (num_add (expectedRent tenant_lower) (tolerance tenant_lower)) \<and>
   searchTerms tenant_lower = [str ''smith''] \<and>
   name tx_t1 = str ''Zelle from John Smith'' \<and>
   \<not> includes_str (name tx_t1) (str ''smith'') \<and>
   isMatch toUpperCase_ASCII tenant_lower tx_t1 (description_of toUpperCase_ASCII tx_t1) \<and>
   stillMatches toUpperCase_ASCII tenant_lower tx_t1"
  using C7_search_terms[OF C7_facts(1,2,3), of toUpperCase_ASCII] C7_facts(1-7) by blast

text \<open>
  The claim as it is worded fails for the search term \<^verbatim>\<open>" "\<close>: it is not empty and it occurs
  in the description, the amount passes the amount filter, and both evaluators return false.
\<close>

theorem C7_whitespace_term_counterexample:
  "matchMode tenant_blank = Some SearchTerms \<and>
   num_ge (num_abs (amount deposit_smith))
     (num_sub (expectedRent tenant_blank) (tolerance tenant_blank)) \<and>
   num_le (num_abs (amount deposit_smith))
     (num_add (expectedRent tenant_blank) (tolerance tenant_blank)) \<and>
   searchTerms tenant_blank = [str '' ''] \<and>
   claimed_termMatch toUpperCase_ASCII tenant_blank deposit_smith \<and>
   \<not> isMatch toUpperCase_ASCII tenant_blank deposit_smith
       (description_of toUpperCase_ASCII deposit_smith) \<and>
   \<not> stillMatches toUpperCase_ASCII tenant_blank deposit_smith"
  using C7_facts(9-15) by blast


end
